theory Spec2Isabelle
  imports Complex_Main
begin

section \<open>Data\<close>

text \<open>
  The program (\<^verbatim>\<open>zoom_meeting_summary.py\<close>) reads JSON objects from a provider and
  from a local cache file. A JSON object is modelled by a record holding one optional
  field per key the program reads: \<open>None\<close> is an absent key. Keys that the program
  reads with \<^verbatim>\<open>d["k"]\<close> on every path (the fields of a meeting and of a participant)
  are plain fields: the records are the provider's well-formed items.
\<close>

text \<open>
  A parsed timestamp (\<^verbatim>\<open>datetime\<close> with a UTC offset, as the provider's ISO-8601
  strings carry one): the wall-clock reading and the offset, both in microseconds,
  the resolution of Python's \<^verbatim>\<open>datetime\<close>.
\<close>

record datetime =
  wall :: int
  utcoffset :: int

text \<open>\<^verbatim>\<open>a - b\<close> on two aware datetimes: the difference of the instants, in microseconds.\<close>

definition datetime_sub :: "datetime \<Rightarrow> datetime \<Rightarrow> int" where
  "datetime_sub a b = (wall a - utcoffset a) - (wall b - utcoffset b)"

text \<open>\<^verbatim>\<open>a + timedelta(minutes=m)\<close>: the wall clock advances, the offset stays.\<close>

definition add_minutes :: "datetime \<Rightarrow> int \<Rightarrow> datetime" where
  "add_minutes a m = a\<lparr>wall := wall a + m * 60000000\<rparr>"

record meeting =
  m_id :: string
  m_topic :: string
  m_start_time :: string
  m_duration :: int

record participant =
  p_name :: string
  p_email :: "string option"
  p_join_time :: string
  p_leave_time :: string

record participant_summary =
  ps_name :: string
  ps_email :: string
  ps_duration :: string

record meeting_summary =
  ms_topic :: string
  ms_start_time :: string
  ms_end_time :: string
  ms_scheduled_duration :: string
  ms_participants :: "participant_summary list"

text \<open>Every exception the modelled code can raise.\<close>

datatype error =
    Failed_to_obtain_access_token
  | Failed_to_obtain_user_ID
  | Failed_to_fetch_meetings
  | UnboundLocalError
  | KeyError
  | ValueError
  | JSONDecodeError
  | ParserError

section \<open>Durations\<close>

text \<open>
  \<^verbatim>\<open>timedelta.total_seconds()\<close> and the division by 60 are floating-point operations in
  the source; they are modelled by exact rational arithmetic, which the floating-point
  results agree with on timestamps of whole seconds (the quotient is then an integer or
  at least \<open>1/60\<close> away from every integer). \<^verbatim>\<open>int(x)\<close> on a float discards
  the fractional part, that is, it rounds toward zero.
\<close>

definition total_seconds :: "int \<Rightarrow> rat" where
  "total_seconds us = of_int us / 1000000"

definition py_int :: "rat \<Rightarrow> int" where
  "py_int x = (if 0 \<le> x then \<lfloor>x\<rfloor> else \<lceil>x\<rceil>)"

text \<open>
  \<^verbatim>\<open>calculate_participant_duration\<close> (lines 183-187). \<^verbatim>\<open>parser.parse\<close> is a library
  function and a parameter of the model: \<open>None\<close> is its \<^verbatim>\<open>ParserError\<close>.
\<close>

definition calculate_participant_duration ::
  "(string \<Rightarrow> datetime option) \<Rightarrow> string \<Rightarrow> string \<Rightarrow> error + int" where
  "calculate_participant_duration parse join_time leave_time =
     (case parse join_time of
        None \<Rightarrow> Inl ParserError
      | Some join \<Rightarrow>
          (case parse leave_time of
             None \<Rightarrow> Inl ParserError
           | Some leave \<Rightarrow>
               (let duration = datetime_sub leave join
                in Inr (py_int (total_seconds duration / 60)))))"

subsection \<open>A parser for the provider's timestamp format\<close>

text \<open>
  A model of \<^verbatim>\<open>parser.parse\<close> on the one format \<^verbatim>\<open>YYYY-MM-DDTHH:MM:SSZ\<close>, enough to
  run the code on the timestamps the provider sends. The wall clock counts from
  1970-01-01T00:00:00; \<^verbatim>\<open>Z\<close> is offset 0.
\<close>

definition digit_val :: "char \<Rightarrow> nat option" where
  "digit_val c =
     (let n = of_char c :: nat in if 48 \<le> n \<and> n \<le> 57 then Some (n - 48) else None)"

fun number :: "string \<Rightarrow> nat \<Rightarrow> nat option" where
  "number [] acc = Some acc"
| "number (c # cs) acc =
     (case digit_val c of None \<Rightarrow> None | Some d \<Rightarrow> number cs (10 * acc + d))"

definition days_from_civil :: "int \<Rightarrow> int \<Rightarrow> int \<Rightarrow> int" where
  "days_from_civil y m d =
     (let y' = (if m \<le> 2 then y - 1 else y);
          era = y' div 400;
          yoe = y' - era * 400;
          mp = (if m > 2 then m - 3 else m + 9);
          doy = (153 * mp + 2) div 5 + d - 1;
          doe = yoe * 365 + yoe div 4 - yoe div 100 + doy
      in era * 146097 + doe - 719468)"

definition parse_iso_utc :: "string \<Rightarrow> datetime option" where
  "parse_iso_utc s =
     (if length s = 20 \<and> s ! 4 = CHR ''-'' \<and> s ! 7 = CHR ''-'' \<and> s ! 10 = CHR ''T''
         \<and> s ! 13 = CHR '':'' \<and> s ! 16 = CHR '':'' \<and> s ! 19 = CHR ''Z''
      then
        (case (number (take 4 s) 0, number (take 2 (drop 5 s)) 0,
               number (take 2 (drop 8 s)) 0, number (take 2 (drop 11 s)) 0,
               number (take 2 (drop 14 s)) 0, number (take 2 (drop 17 s)) 0) of
           (Some y, Some mo, Some d, Some h, Some mi, Some sec) \<Rightarrow>
             if 1 \<le> mo \<and> mo \<le> 12 \<and> 1 \<le> d \<and> d \<le> 31 \<and> h < 24 \<and> mi < 60 \<and> sec < 60
             then Some \<lparr>wall =
                    (((days_from_civil (int y) (int mo) (int d) * 24 + int h) * 60 + int mi) * 60
                       + int sec) * 1000000,
                    utcoffset = 0\<rparr>
             else None
         | _ \<Rightarrow> None)
      else None)"

section \<open>The token cache\<close>

text \<open>
  The file \<^verbatim>\<open>auth_cache.json\<close>. The text under the key \<^verbatim>\<open>expiration\<close> is modelled by what
  \<^verbatim>\<open>datetime.fromisoformat\<close> makes of it: \<open>Iso t\<close> is the text \<^verbatim>\<open>isoformat()\<close> writes
  for the local clock reading \<open>t\<close> (in microseconds) and reads back as \<open>t\<close>;
  \<open>NotIso\<close> is a text it rejects with \<^verbatim>\<open>ValueError\<close>.
\<close>

datatype expiration_text = Iso int | NotIso

record cache_object =
  c_access_token :: "string option"
  c_expiration :: "expiration_text option"

datatype cache_file =
    NoFile
  | NotJson
  | JsonObject cache_object

text \<open>
  \<^verbatim>\<open>load_cached_token\<close> (lines 47-55); \<open>now\<close> is the reading of \<^verbatim>\<open>datetime.now()\<close>.
  Nothing in the function catches an exception.
\<close>

definition load_cached_token :: "int \<Rightarrow> cache_file \<Rightarrow> error + string option" where
  "load_cached_token now file =
     (case file of
        NoFile \<Rightarrow> Inr None
      | NotJson \<Rightarrow> Inl JSONDecodeError
      | JsonObject cache \<Rightarrow>
          (case c_expiration cache of
             None \<Rightarrow> Inl KeyError
           | Some NotIso \<Rightarrow> Inl ValueError
           | Some (Iso expiration) \<Rightarrow>
               if expiration > now
               then (case c_access_token cache of
                       None \<Rightarrow> Inl KeyError
                     | Some tok \<Rightarrow> Inr (Some tok))
               else Inr None))"

text \<open>\<^verbatim>\<open>save_token_to_cache\<close> (lines 57-65): the file is overwritten.\<close>

definition save_token_to_cache :: "int \<Rightarrow> string \<Rightarrow> int \<Rightarrow> cache_file \<Rightarrow> cache_file" where
  "save_token_to_cache now access_token expires_in file =
     (let expiration = now + expires_in * 1000000
      in JsonObject \<lparr>c_access_token = Some access_token, c_expiration = Some (Iso expiration)\<rparr>)"

section \<open>The HTTP transport\<close>

text \<open>The keys the program reads in the JSON objects of the provider's responses.\<close>

record json_body =
  j_access_token :: "string option"
  j_expires_in :: "int option"
  j_id :: "string option"
  j_meetings :: "meeting list option"
  j_participants :: "participant list option"
  j_next_page_token :: "string option"

text \<open>
  What one request yields: the library raises a \<^verbatim>\<open>RequestException\<close> before there is
  any response object (\<open>Raises\<close>: a connection failure, say), or a response arrives with
  a status code and a JSON object. A success response whose body is not a JSON object is
  outside the model.
\<close>

datatype outcome = Raises | Reply nat json_body

text \<open>
  The provider is a sequence of outcomes: the \<open>n\<close>-th request the program sends over the
  wire gets \<open>w n\<close>. The state the program threads is the list of the requests sent so far,
  each with the endpoint it went to and the \<^verbatim>\<open>next_page_token\<close> parameter it carried.
  The bearer token, the page size and the date range of a request are the same for every
  request of a call and nothing the program does depends on them: the functions below
  leave out the parameters \<^verbatim>\<open>access_token\<close>, \<^verbatim>\<open>start_date\<close> and \<^verbatim>\<open>end_date\<close>.
\<close>

type_synonym transport = "nat \<Rightarrow> outcome"

datatype endpoint =
    OAuthToken
  | UsersMe
  | UserMeetings string
  | MeetingParticipants string

datatype request = Request endpoint "string option"

text \<open>\<^verbatim>\<open>response.raise_for_status()\<close> raises for the statuses 400 to 599.\<close>

definition raise_for_status :: "nat \<Rightarrow> bool" where
  "raise_for_status status = (400 \<le> status \<and> status < 600)"

text \<open>The truth value of an optional string: absent and empty are false.\<close>

definition truthy :: "string option \<Rightarrow> bool" where
  "truthy v = (case v of None \<Rightarrow> False | Some s \<Rightarrow> s \<noteq> [])"

text \<open>
  \<^verbatim>\<open>requests.get\<close>, the module-level function (lines 140 and 167): it does not go
  through \<^verbatim>\<open>session\<close>, so the retry adapter mounted there plays no part. One request,
  one outcome.
\<close>

definition requests_get :: "transport \<Rightarrow> request \<Rightarrow> request list \<Rightarrow> outcome \<times> request list" where
  "requests_get w req sent = (w (length sent), sent @ [req])"

text \<open>The retry configuration of \<^verbatim>\<open>session\<close> (line 36).\<close>

definition status_forcelist :: "nat list" where
  "status_forcelist = [500, 502, 503, 504]"

definition total :: nat where
  "total = 5"

text \<open>
  Modelled from the spec: the retry loop of the transport adapter mounted on
  \<^verbatim>\<open>session\<close> (library code, outside the repository). A response whose status is in
  the force list is retried while retries are left; any other outcome is returned at
  once; when the retries are used up the library raises. Delays are not modelled.
\<close>

fun session_send :: "transport \<Rightarrow> nat \<Rightarrow> request \<Rightarrow> request list \<Rightarrow> outcome \<times> request list" where
  "session_send w 0 req sent =
     (case w (length sent) of
        Raises \<Rightarrow> (Raises, sent @ [req])
      | Reply status data \<Rightarrow>
          if status \<in> set status_forcelist then (Raises, sent @ [req])
          else (Reply status data, sent @ [req]))"
| "session_send w (Suc retries) req sent =
     (case w (length sent) of
        Raises \<Rightarrow> (Raises, sent @ [req])
      | Reply status data \<Rightarrow>
          if status \<in> set status_forcelist then session_send w retries req (sent @ [req])
          else (Reply status data, sent @ [req]))"

text \<open>\<^verbatim>\<open>session.post\<close> and \<^verbatim>\<open>session.get\<close> (lines 80 and 100).\<close>

definition session_request :: "transport \<Rightarrow> request \<Rightarrow> request list \<Rightarrow> outcome \<times> request list" where
  "session_request w req sent = session_send w total req sent"

section \<open>Authentication\<close>

text \<open>
  \<^verbatim>\<open>get_access_token\<close> (lines 67-92). \<open>now_load\<close> and \<open>now_save\<close> are the two readings
  of the clock, in \<^verbatim>\<open>load_cached_token\<close> and in \<^verbatim>\<open>save_token_to_cache\<close>. In the
  \<^verbatim>\<open>except\<close> clause \<^verbatim>\<open>log_response(response)\<close> reads a variable that is unbound
  when the request itself raised.
\<close>

definition get_access_token ::
  "transport \<Rightarrow> int \<Rightarrow> int \<Rightarrow> cache_file \<times> request list
     \<Rightarrow> (error + string) \<times> cache_file \<times> request list" where
  "get_access_token w now_load now_save st =
     (case st of (file, sent) \<Rightarrow>
        (case load_cached_token now_load file of
           Inl e \<Rightarrow> (Inl e, file, sent)
         | Inr cached_token \<Rightarrow>
             if truthy cached_token then (Inr (the cached_token), file, sent)
             else
               (case session_request w (Request OAuthToken None) sent of
                  (Raises, sent') \<Rightarrow> (Inl UnboundLocalError, file, sent')
                | (Reply status token_data, sent') \<Rightarrow>
                    if raise_for_status status
                    then (Inl Failed_to_obtain_access_token, file, sent')
                    else
                      (case j_access_token token_data of
                         None \<Rightarrow> (Inl KeyError, file, sent')
                       | Some access_token \<Rightarrow>
                           (case j_expires_in token_data of
                              None \<Rightarrow> (Inl KeyError, file, sent')
                            | Some expires_in \<Rightarrow>
                                (Inr access_token,
                                 save_token_to_cache now_save access_token expires_in file,
                                 sent'))))))"

text \<open>\<^verbatim>\<open>get_user_id\<close> (lines 94-109).\<close>

definition get_user_id :: "transport \<Rightarrow> request list \<Rightarrow> (error + string) \<times> request list" where
  "get_user_id w sent =
     (case session_request w (Request UsersMe None) sent of
        (Raises, sent') \<Rightarrow> (Inl UnboundLocalError, sent')
      | (Reply status data, sent') \<Rightarrow>
          if raise_for_status status then (Inl Failed_to_obtain_user_ID, sent')
          else (case j_id data of
                  None \<Rightarrow> (Inl KeyError, sent')
                | Some user_id \<Rightarrow> (Inr user_id, sent')))"

section \<open>Paginated listings\<close>

text \<open>
  The \<^verbatim>\<open>except\<close> clauses (lines 151-154 and 178-181). \<open>response\<close> is the local variable
  of that name: \<open>None\<close> while no request has returned. \<^verbatim>\<open>log_response(response)\<close>
  comes first in both clauses and raises \<^verbatim>\<open>UnboundLocalError\<close> on an unbound variable.
\<close>

definition get_meetings_except :: "(nat \<times> json_body) option \<Rightarrow> error + meeting list" where
  "get_meetings_except response =
     (case response of
        None \<Rightarrow> Inl UnboundLocalError
      | Some r \<Rightarrow> Inl Failed_to_fetch_meetings)"

definition get_meeting_participants_except ::
  "(nat \<times> json_body) option \<Rightarrow> error + participant list" where
  "get_meeting_participants_except response =
     (case response of
        None \<Rightarrow> Inl UnboundLocalError
      | Some r \<Rightarrow> Inr [])"

text \<open>
  The \<^verbatim>\<open>while True\<close> loop of \<^verbatim>\<open>get_meetings\<close> (lines 139-150). \<open>None\<close> is a loop that
  runs forever. \<open>next_page_token\<close> is the entry of that name in \<^verbatim>\<open>params\<close>.
\<close>

partial_function (option) get_meetings_loop ::
  "transport \<Rightarrow> string \<Rightarrow> string option \<Rightarrow> meeting list \<Rightarrow> (nat \<times> json_body) option
     \<Rightarrow> request list \<Rightarrow> ((error + meeting list) \<times> request list) option" where
  "get_meetings_loop w user_id next_page_token meetings response sent =
     (case requests_get w (Request (UserMeetings user_id) next_page_token) sent of
        (Raises, sent') \<Rightarrow> Some (get_meetings_except response, sent')
      | (Reply status data, sent') \<Rightarrow>
          if raise_for_status status
          then Some (get_meetings_except (Some (status, data)), sent')
          else
            (case j_meetings data of
               None \<Rightarrow> Some (Inl KeyError, sent')
             | Some page \<Rightarrow>
                 if truthy (j_next_page_token data)
                 then get_meetings_loop w user_id (j_next_page_token data) (meetings @ page)
                        (Some (status, data)) sent'
                 else Some (Inr (meetings @ page), sent')))"

declare get_meetings_loop.simps [code]

definition get_meetings ::
  "transport \<Rightarrow> string \<Rightarrow> request list \<Rightarrow> ((error + meeting list) \<times> request list) option" where
  "get_meetings w user_id sent = get_meetings_loop w user_id None [] None sent"

text \<open>The loop of \<^verbatim>\<open>get_meeting_participants\<close> (lines 166-177).\<close>

partial_function (option) get_meeting_participants_loop ::
  "transport \<Rightarrow> string \<Rightarrow> string option \<Rightarrow> participant list \<Rightarrow> (nat \<times> json_body) option
     \<Rightarrow> request list \<Rightarrow> ((error + participant list) \<times> request list) option" where
  "get_meeting_participants_loop w meeting_id next_page_token participants response sent =
     (case requests_get w (Request (MeetingParticipants meeting_id) next_page_token) sent of
        (Raises, sent') \<Rightarrow> Some (get_meeting_participants_except response, sent')
      | (Reply status data, sent') \<Rightarrow>
          if raise_for_status status
          then Some (get_meeting_participants_except (Some (status, data)), sent')
          else
            (case j_participants data of
               None \<Rightarrow> Some (Inl KeyError, sent')
             | Some page \<Rightarrow>
                 if truthy (j_next_page_token data)
                 then get_meeting_participants_loop w meeting_id (j_next_page_token data)
                        (participants @ page) (Some (status, data)) sent'
                 else Some (Inr (participants @ page), sent')))"

declare get_meeting_participants_loop.simps [code]

definition get_meeting_participants ::
  "transport \<Rightarrow> string \<Rightarrow> request list
     \<Rightarrow> ((error + participant list) \<times> request list) option" where
  "get_meeting_participants w meeting_id sent =
     get_meeting_participants_loop w meeting_id None [] None sent"

section \<open>The summarizer\<close>

text \<open>\<^verbatim>\<open>str\<close> on an integer, for the f-strings of lines 203 and 210.\<close>

function str_nat :: "nat \<Rightarrow> string" where
  "str_nat n =
     (if n < 10 then [char_of (48 + n)]
      else str_nat (n div 10) @ [char_of (48 + n mod 10)])"
  by pat_completeness auto
termination
  by (relation "measure id") auto

definition str_int :: "int \<Rightarrow> string" where
  "str_int i = (if i < 0 then CHR ''-'' # str_nat (nat (- i)) else str_nat (nat i))"

text \<open>The body of the inner loop (lines 199-204), for one participant.\<close>

definition summarize_participant ::
  "(string \<Rightarrow> datetime option) \<Rightarrow> participant \<Rightarrow> error + participant_summary" where
  "summarize_participant parse p =
     (case calculate_participant_duration parse (p_join_time p) (p_leave_time p) of
        Inl e \<Rightarrow> Inl e
      | Inr duration \<Rightarrow>
          Inr \<lparr>ps_name = p_name p,
               ps_email = (case p_email p of None \<Rightarrow> ''N/A'' | Some e \<Rightarrow> e),
               ps_duration = str_int duration @ '' minutes''\<rparr>)"

text \<open>The inner loop (lines 197-204); the first exception ends it.\<close>

fun participant_summaries ::
  "(string \<Rightarrow> datetime option) \<Rightarrow> participant list \<Rightarrow> participant_summary list
     \<Rightarrow> error + participant_summary list" where
  "participant_summaries parse [] acc = Inr acc"
| "participant_summaries parse (p # ps) acc =
     (case summarize_participant parse p of
        Inl e \<Rightarrow> Inl e
      | Inr s \<Rightarrow> participant_summaries parse ps (acc @ [s]))"

text \<open>
  \<^verbatim>\<open>summarize_meetings\<close> (lines 189-214): the outer loop, with \<open>summary\<close> the list built
  so far. \<^verbatim>\<open>strftime\<close> with the format of lines 208-209 is a library function and a
  parameter.
\<close>

fun summarize_meetings_loop ::
  "(string \<Rightarrow> datetime option) \<Rightarrow> (datetime \<Rightarrow> string) \<Rightarrow> transport \<Rightarrow> meeting list
     \<Rightarrow> meeting_summary list \<Rightarrow> request list
     \<Rightarrow> ((error + meeting_summary list) \<times> request list) option" where
  "summarize_meetings_loop parse strftime w [] summary sent = Some (Inr summary, sent)"
| "summarize_meetings_loop parse strftime w (meeting # rest) summary sent =
     (case parse (m_start_time meeting) of
        None \<Rightarrow> Some (Inl ParserError, sent)
      | Some start_time \<Rightarrow>
          (let scheduled_duration = m_duration meeting;
               end_time = add_minutes start_time scheduled_duration
           in case get_meeting_participants w (m_id meeting) sent of
                None \<Rightarrow> None
              | Some (Inl e, sent') \<Rightarrow> Some (Inl e, sent')
              | Some (Inr participants, sent') \<Rightarrow>
                  (case participant_summaries parse participants [] of
                     Inl e \<Rightarrow> Some (Inl e, sent')
                   | Inr ps \<Rightarrow>
                       summarize_meetings_loop parse strftime w rest
                         (summary @
                            [\<lparr>ms_topic = m_topic meeting,
                              ms_start_time = strftime start_time,
                              ms_end_time = strftime end_time,
                              ms_scheduled_duration = str_int scheduled_duration @ '' minutes'',
                              ms_participants = ps\<rparr>])
                         sent')))"

definition summarize_meetings ::
  "(string \<Rightarrow> datetime option) \<Rightarrow> (datetime \<Rightarrow> string) \<Rightarrow> transport \<Rightarrow> meeting list
     \<Rightarrow> request list \<Rightarrow> ((error + meeting_summary list) \<times> request list) option" where
  "summarize_meetings parse strftime w meetings sent =
     summarize_meetings_loop parse strftime w meetings [] sent"

section \<open>The run\<close>

text \<open>
  \<^verbatim>\<open>main\<close> (lines 216-238): the first exception ends the run (\<open>Inl\<close>: it is reported
  and no summary is printed); \<open>Inr\<close> is the summary printed.
\<close>

definition main ::
  "(string \<Rightarrow> datetime option) \<Rightarrow> (datetime \<Rightarrow> string) \<Rightarrow> transport \<Rightarrow> int \<Rightarrow> int
     \<Rightarrow> cache_file \<times> request list
     \<Rightarrow> ((error + meeting_summary list) \<times> cache_file \<times> request list) option" where
  "main parse strftime w now_load now_save st =
     (case get_access_token w now_load now_save st of
        (Inl e, file, sent) \<Rightarrow> Some (Inl e, file, sent)
      | (Inr access_token, file, sent) \<Rightarrow>
          (case get_user_id w sent of
             (Inl e, sent1) \<Rightarrow> Some (Inl e, file, sent1)
           | (Inr user_id, sent1) \<Rightarrow>
               (case get_meetings w user_id sent1 of
                  None \<Rightarrow> None
                | Some (Inl e, sent2) \<Rightarrow> Some (Inl e, file, sent2)
                | Some (Inr meetings, sent2) \<Rightarrow>
                    (case summarize_meetings parse strftime w meetings sent2 of
                       None \<Rightarrow> None
                     | Some (Inl e, sent3) \<Rightarrow> Some (Inl e, file, sent3)
                     | Some (Inr summary, sent3) \<Rightarrow> Some (Inr summary, file, sent3)))))"

section \<open>Pages\<close>

text \<open>
  The page a response carries for each of the two loops: its items and its cursor, when
  the status is a success and the items key is there. A page makes its loop go on when
  its cursor is neither absent nor empty.
\<close>

definition meetings_page_of :: "outcome \<Rightarrow> (meeting list \<times> string option) option" where
  "meetings_page_of out =
     (case out of
        Raises \<Rightarrow> None
      | Reply status data \<Rightarrow>
          if raise_for_status status then None
          else (case j_meetings data of
                  None \<Rightarrow> None
                | Some page \<Rightarrow> Some (page, j_next_page_token data)))"

definition meetings_continue :: "outcome \<Rightarrow> bool" where
  "meetings_continue out =
     (case meetings_page_of out of None \<Rightarrow> False | Some (page, cursor) \<Rightarrow> truthy cursor)"

definition participants_page_of :: "outcome \<Rightarrow> (participant list \<times> string option) option" where
  "participants_page_of out =
     (case out of
        Raises \<Rightarrow> None
      | Reply status data \<Rightarrow>
          if raise_for_status status then None
          else (case j_participants data of
                  None \<Rightarrow> None
                | Some page \<Rightarrow> Some (page, j_next_page_token data)))"

definition participants_continue :: "outcome \<Rightarrow> bool" where
  "participants_continue out =
     (case participants_page_of out of None \<Rightarrow> False | Some (page, cursor) \<Rightarrow> truthy cursor)"

section \<open>What a summary says of its meeting\<close>


section \<open>The claim of the specification on durations\<close>


section \<open>Concrete inputs\<close>

text \<open>A provider that follows a script, and fails to connect once the script is over.\<close>

definition script :: "outcome list \<Rightarrow> transport" where
  "script outs n = (if n < length outs then outs ! n else Raises)"

definition no_keys :: json_body where
  "no_keys = \<lparr>j_access_token = None, j_expires_in = None, j_id = None, j_meetings = None,
              j_participants = None, j_next_page_token = None\<rparr>"

definition meetings_page :: "meeting list \<Rightarrow> string option \<Rightarrow> outcome" where
  "meetings_page items cursor =
     Reply 200 (no_keys\<lparr>j_meetings := Some items, j_next_page_token := cursor\<rparr>)"

definition participants_page :: "participant list \<Rightarrow> string option \<Rightarrow> outcome" where
  "participants_page items cursor =
     Reply 200 (no_keys\<lparr>j_participants := Some items, j_next_page_token := cursor\<rparr>)"

definition token_reply :: "string \<Rightarrow> int \<Rightarrow> outcome" where
  "token_reply tok ttl =
     Reply 200 (no_keys\<lparr>j_access_token := Some tok, j_expires_in := Some ttl\<rparr>)"

definition user_reply :: "string \<Rightarrow> outcome" where
  "user_reply uid = Reply 200 (no_keys\<lparr>j_id := Some uid\<rparr>)"

definition standup :: meeting where
  "standup = \<lparr>m_id = ''81'', m_topic = ''Standup'',
               m_start_time = ''2024-01-01T10:00:00Z'', m_duration = 30\<rparr>"

definition review :: meeting where
  "review = \<lparr>m_id = ''82'', m_topic = ''Review'',
              m_start_time = ''2024-01-02T15:30:00Z'', m_duration = 60\<rparr>"

definition alice :: participant where
  "alice = \<lparr>p_name = ''Alice'', p_email = Some ''alice@example.com'',
             p_join_time = ''2024-01-01T10:00:00Z'', p_leave_time = ''2024-01-01T10:45:30Z''\<rparr>"

definition bob :: participant where
  "bob = \<lparr>p_name = ''Bob'', p_email = None,
           p_join_time = ''2024-01-02T15:31:00Z'', p_leave_time = ''2024-01-02T16:01:59Z''\<rparr>"

text \<open>
  A model of \<^verbatim>\<open>strftime("%Y-%m-%d %H:%M")\<close> for the years 1000 to 9999, to run the
  summarizer on concrete meetings: the wall clock, cut to the minute.
\<close>

definition civil_from_days :: "int \<Rightarrow> int \<times> int \<times> int" where
  "civil_from_days z =
     (let z' = z + 719468;
          era = z' div 146097;
          doe = z' - era * 146097;
          yoe = (doe - doe div 1460 + doe div 36524 - doe div 146096) div 365;
          doy = doe - (365 * yoe + yoe div 4 - yoe div 100);
          mp = (5 * doy + 2) div 153;
          d = doy - (153 * mp + 2) div 5 + 1;
          m = (if mp < 10 then mp + 3 else mp - 9);
          y = yoe + era * 400 + (if m \<le> 2 then 1 else 0)
      in (y, m, d))"

definition two_digits :: "int \<Rightarrow> string" where
  "two_digits i = (if i < 10 then CHR ''0'' # str_int i else str_int i)"

definition strftime_minutes :: "datetime \<Rightarrow> string" where
  "strftime_minutes t =
     (let secs = wall t div 1000000;
          sod = secs mod 86400
      in case civil_from_days (secs div 86400) of
           (y, m, d) \<Rightarrow>
             str_int y @ ''-'' @ two_digits m @ ''-'' @ two_digits d @ '' ''
               @ two_digits (sod div 3600) @ '':'' @ two_digits (sod mod 3600 div 60))"

section \<open>Durations are cut toward zero\<close>







section \<open>The cache holds a token until its expiry\<close>



section \<open>A damaged cache file ends the run\<close>






section \<open>One exchange per validity window\<close>





section \<open>The pagination loops\<close>

lemma not_truthy_iff: "\<not> truthy c \<longleftrightarrow> c = None \<or> c = Some []"
  by (cases c) (simp_all add: truthy_def)

subsection \<open>The meeting listing, one request at a time\<close>

lemma meetings_page_ofE:
  assumes "meetings_page_of out = Some (page, cursor)"
  obtains status data where "out = Reply status data" "\<not> raise_for_status status"
    "j_meetings data = Some page" "j_next_page_token data = cursor"
  using assms
  by (auto simp: meetings_page_of_def split: outcome.splits if_splits option.splits)

lemma get_meetings_loop_step:
  assumes "meetings_page_of (w (length sent)) = Some (page, cursor)" "truthy cursor"
  shows "\<exists>r. get_meetings_loop w u tok ms resp sent =
           get_meetings_loop w u cursor (ms @ page) (Some r)
             (sent @ [Request (UserMeetings u) tok])"
proof -
  from assms(1) obtain status data where "w (length sent) = Reply status data"
    "\<not> raise_for_status status" "j_meetings data = Some page" "j_next_page_token data = cursor"
    by (rule meetings_page_ofE)
  with assms(2) have "get_meetings_loop w u tok ms resp sent =
      get_meetings_loop w u cursor (ms @ page) (Some (status, data))
        (sent @ [Request (UserMeetings u) tok])"
    by (subst get_meetings_loop.simps) (simp add: requests_get_def)
  then show ?thesis
    by blast
qed

lemma get_meetings_loop_stop:
  assumes "meetings_page_of (w (length sent)) = Some (page, cursor)" "\<not> truthy cursor"
  shows "get_meetings_loop w u tok ms resp sent =
           Some (Inr (ms @ page), sent @ [Request (UserMeetings u) tok])"
proof -
  from assms(1) obtain status data where "w (length sent) = Reply status data"
    "\<not> raise_for_status status" "j_meetings data = Some page" "j_next_page_token data = cursor"
    by (rule meetings_page_ofE)
  with assms(2) show ?thesis
    by (subst get_meetings_loop.simps) (simp add: requests_get_def)
qed

lemma get_meetings_loop_fail:
  assumes "meetings_page_of (w (length sent)) = None"
  shows "\<exists>e. get_meetings_loop w u tok ms resp sent =
           Some (Inl e, sent @ [Request (UserMeetings u) tok])"
  using assms
  by (subst get_meetings_loop.simps)
     (auto simp: meetings_page_of_def requests_get_def get_meetings_except_def
       split: outcome.splits if_splits option.splits)

lemma get_meetings_loop_last:
  assumes "\<not> meetings_continue (w (length sent))"
  shows "\<exists>r. get_meetings_loop w u tok ms resp sent =
           Some (r, sent @ [Request (UserMeetings u) tok])"
proof (cases "meetings_page_of (w (length sent))")
  case None
  from get_meetings_loop_fail [where w = w and sent = sent, OF this] show ?thesis
    by blast
next
  case (Some pc)
  obtain page cursor where pc: "pc = (page, cursor)"
    by (cases pc)
  with assms Some have "\<not> truthy cursor"
    by (simp add: meetings_continue_def)
  from get_meetings_loop_stop [where w = w and sent = sent, OF Some [unfolded pc] this]
  show ?thesis
    by blast
qed

lemma get_meetings_loop_returns:
  assumes "\<not> meetings_continue (w (length sent + d))"
  shows "get_meetings_loop w u tok ms resp sent \<noteq> None"
  using assms
proof (induction d arbitrary: tok ms resp sent)
  case 0
  then have "\<not> meetings_continue (w (length sent))"
    by simp
  from get_meetings_loop_last [where w = w and sent = sent, OF this] show ?case
    by (metis option.distinct(1))
next
  case (Suc d)
  show ?case
  proof (cases "meetings_continue (w (length sent))")
    case False
    from get_meetings_loop_last [where w = w and sent = sent, OF this] show ?thesis
      by (metis option.distinct(1))
  next
    case True
    then obtain page cursor where
      "meetings_page_of (w (length sent)) = Some (page, cursor)" "truthy cursor"
      by (auto simp: meetings_continue_def split: option.splits)
    from get_meetings_loop_step [where w = w and sent = sent, OF this] obtain r where
      "get_meetings_loop w u tok ms resp sent =
         get_meetings_loop w u cursor (ms @ page) (Some r)
           (sent @ [Request (UserMeetings u) tok])"
      by blast
    moreover have "get_meetings_loop w u cursor (ms @ page) (Some r)
        (sent @ [Request (UserMeetings u) tok]) \<noteq> None"
      using Suc.prems by (intro Suc.IH) simp
    ultimately show ?thesis
      by simp
  qed
qed

lemma get_meetings_loop_stops:
  assumes "get_meetings_loop w u tok ms resp sent = Some r"
  shows "\<exists>n\<ge>length sent. \<not> meetings_continue (w n)"
  using assms
proof (induction w u tok ms resp sent r
    rule: get_meetings_loop.raw_induct [rotated 1, consumes 1])
  case (1 loop w u tok ms resp sent r)
  show ?case
  proof (cases "meetings_continue (w (length sent))")
    case False
    then show ?thesis
      by blast
  next
    case True
    then obtain page cursor where
      p: "meetings_page_of (w (length sent)) = Some (page, cursor)" "truthy cursor"
      by (auto simp: meetings_continue_def split: option.splits)
    from p(1) obtain status data where "w (length sent) = Reply status data"
      "\<not> raise_for_status status" "j_meetings data = Some page"
      "j_next_page_token data = cursor"
      by (rule meetings_page_ofE)
    with p(2) 1(2) have "loop w u cursor (ms @ page) (Some (status, data))
        (sent @ [Request (UserMeetings u) tok]) = Some r"
      by (simp add: requests_get_def)
    from 1(1) [OF this] show ?thesis
      by (auto intro: Suc_leD)
  qed
qed

lemma get_meetings_loop_pages:
  assumes "\<forall>i<length ps. meetings_page_of (w (length sent + i)) = Some (ps ! i)
             \<and> truthy (snd (ps ! i))"
    and "meetings_page_of (w (length sent + length ps)) = Some (page, cursor)"
    and "\<not> truthy cursor"
  shows "get_meetings_loop w u tok ms resp sent =
           Some (Inr (ms @ concat (map fst ps) @ page),
                 sent @ map (Request (UserMeetings u)) (tok # map snd ps))"
  using assms
proof (induction ps arbitrary: tok ms resp sent)
  case Nil
  then have "meetings_page_of (w (length sent)) = Some (page, cursor)"
    by simp
  from get_meetings_loop_stop [where w = w and sent = sent, OF this Nil(3)] show ?case
    by simp
next
  case (Cons p ps)
  obtain pg c where p: "p = (pg, c)"
    by (cases p)
  from Cons.prems(1) have "meetings_page_of (w (length sent + 0)) = Some ((p # ps) ! 0)
      \<and> truthy (snd ((p # ps) ! 0))"
    by blast
  with p have first: "meetings_page_of (w (length sent)) = Some (pg, c)" "truthy c"
    by simp_all
  let ?sent = "sent @ [Request (UserMeetings u) tok]"
  from get_meetings_loop_step [where w = w and sent = sent, OF first] obtain r where
    step: "get_meetings_loop w u tok ms resp sent =
      get_meetings_loop w u c (ms @ pg) (Some r) ?sent"
    by blast
  have rest: "\<forall>i<length ps. meetings_page_of (w (length ?sent + i)) = Some (ps ! i)
      \<and> truthy (snd (ps ! i))"
  proof (intro allI impI)
    fix i assume "i < length ps"
    then have "Suc i < length (p # ps)"
      by simp
    with Cons.prems(1) have "meetings_page_of (w (length sent + Suc i)) = Some ((p # ps) ! Suc i)
        \<and> truthy (snd ((p # ps) ! Suc i))"
      by blast
    then show "meetings_page_of (w (length ?sent + i)) = Some (ps ! i) \<and> truthy (snd (ps ! i))"
      by simp
  qed
  have last: "meetings_page_of (w (length ?sent + length ps)) = Some (page, cursor)"
    using Cons.prems(2) by simp
  from Cons.IH [OF rest last Cons.prems(3)] step p show ?case
    by simp
qed
subsection \<open>The participant listing, one request at a time\<close>

lemma participants_page_ofE:
  assumes "participants_page_of out = Some (page, cursor)"
  obtains status data where "out = Reply status data" "\<not> raise_for_status status"
    "j_participants data = Some page" "j_next_page_token data = cursor"
  using assms
  by (auto simp: participants_page_of_def split: outcome.splits if_splits option.splits)

lemma get_meeting_participants_loop_step:
  assumes "participants_page_of (w (length sent)) = Some (page, cursor)" "truthy cursor"
  shows "\<exists>r. get_meeting_participants_loop w u tok ms resp sent =
           get_meeting_participants_loop w u cursor (ms @ page) (Some r)
             (sent @ [Request (MeetingParticipants u) tok])"
proof -
  from assms(1) obtain status data where "w (length sent) = Reply status data"
    "\<not> raise_for_status status" "j_participants data = Some page" "j_next_page_token data = cursor"
    by (rule participants_page_ofE)
  with assms(2) have "get_meeting_participants_loop w u tok ms resp sent =
      get_meeting_participants_loop w u cursor (ms @ page) (Some (status, data))
        (sent @ [Request (MeetingParticipants u) tok])"
    by (subst get_meeting_participants_loop.simps) (simp add: requests_get_def)
  then show ?thesis
    by blast
qed

lemma get_meeting_participants_loop_stop:
  assumes "participants_page_of (w (length sent)) = Some (page, cursor)" "\<not> truthy cursor"
  shows "get_meeting_participants_loop w u tok ms resp sent =
           Some (Inr (ms @ page), sent @ [Request (MeetingParticipants u) tok])"
proof -
  from assms(1) obtain status data where "w (length sent) = Reply status data"
    "\<not> raise_for_status status" "j_participants data = Some page" "j_next_page_token data = cursor"
    by (rule participants_page_ofE)
  with assms(2) show ?thesis
    by (subst get_meeting_participants_loop.simps) (simp add: requests_get_def)
qed

lemma get_meeting_participants_loop_fail:
  assumes "participants_page_of (w (length sent)) = None"
  shows "\<exists>r. get_meeting_participants_loop w u tok ms resp sent =
           Some (r, sent @ [Request (MeetingParticipants u) tok])
         \<and> (r = Inr [] \<or> r = Inl UnboundLocalError \<or> r = Inl KeyError)"
  using assms
  by (subst get_meeting_participants_loop.simps)
     (auto simp: participants_page_of_def requests_get_def get_meeting_participants_except_def
       split: outcome.splits if_splits option.splits)

lemma get_meeting_participants_loop_last:
  assumes "\<not> participants_continue (w (length sent))"
  shows "\<exists>r. get_meeting_participants_loop w u tok ms resp sent =
           Some (r, sent @ [Request (MeetingParticipants u) tok])"
proof (cases "participants_page_of (w (length sent))")
  case None
  from get_meeting_participants_loop_fail [where w = w and sent = sent, OF this] show ?thesis
    by blast
next
  case (Some pc)
  obtain page cursor where pc: "pc = (page, cursor)"
    by (cases pc)
  with assms Some have "\<not> truthy cursor"
    by (simp add: participants_continue_def)
  from get_meeting_participants_loop_stop [where w = w and sent = sent, OF Some [unfolded pc] this]
  show ?thesis
    by blast
qed

lemma get_meeting_participants_loop_returns:
  assumes "\<not> participants_continue (w (length sent + d))"
  shows "get_meeting_participants_loop w u tok ms resp sent \<noteq> None"
  using assms
proof (induction d arbitrary: tok ms resp sent)
  case 0
  then have "\<not> participants_continue (w (length sent))"
    by simp
  from get_meeting_participants_loop_last [where w = w and sent = sent, OF this] show ?case
    by (metis option.distinct(1))
next
  case (Suc d)
  show ?case
  proof (cases "participants_continue (w (length sent))")
    case False
    from get_meeting_participants_loop_last [where w = w and sent = sent, OF this] show ?thesis
      by (metis option.distinct(1))
  next
    case True
    then obtain page cursor where
      "participants_page_of (w (length sent)) = Some (page, cursor)" "truthy cursor"
      by (auto simp: participants_continue_def split: option.splits)
    from get_meeting_participants_loop_step [where w = w and sent = sent, OF this] obtain r where
      "get_meeting_participants_loop w u tok ms resp sent =
         get_meeting_participants_loop w u cursor (ms @ page) (Some r)
           (sent @ [Request (MeetingParticipants u) tok])"
      by blast
    moreover have "get_meeting_participants_loop w u cursor (ms @ page) (Some r)
        (sent @ [Request (MeetingParticipants u) tok]) \<noteq> None"
      using Suc.prems by (intro Suc.IH) simp
    ultimately show ?thesis
      by simp
  qed
qed

lemma get_meeting_participants_loop_stops:
  assumes "get_meeting_participants_loop w u tok ms resp sent = Some r"
  shows "\<exists>n\<ge>length sent. \<not> participants_continue (w n)"
  using assms
proof (induction w u tok ms resp sent r
    rule: get_meeting_participants_loop.raw_induct [rotated 1, consumes 1])
  case (1 loop w u tok ms resp sent r)
  show ?case
  proof (cases "participants_continue (w (length sent))")
    case False
    then show ?thesis
      by blast
  next
    case True
    then obtain page cursor where
      p: "participants_page_of (w (length sent)) = Some (page, cursor)" "truthy cursor"
      by (auto simp: participants_continue_def split: option.splits)
    from p(1) obtain status data where "w (length sent) = Reply status data"
      "\<not> raise_for_status status" "j_participants data = Some page"
      "j_next_page_token data = cursor"
      by (rule participants_page_ofE)
    with p(2) 1(2) have "loop w u cursor (ms @ page) (Some (status, data))
        (sent @ [Request (MeetingParticipants u) tok]) = Some r"
      by (simp add: requests_get_def)
    from 1(1) [OF this] show ?thesis
      by (auto intro: Suc_leD)
  qed
qed

lemma get_meeting_participants_loop_pages:
  assumes "\<forall>i<length ps. participants_page_of (w (length sent + i)) = Some (ps ! i)
             \<and> truthy (snd (ps ! i))"
    and "participants_page_of (w (length sent + length ps)) = Some (page, cursor)"
    and "\<not> truthy cursor"
  shows "get_meeting_participants_loop w u tok ms resp sent =
           Some (Inr (ms @ concat (map fst ps) @ page),
                 sent @ map (Request (MeetingParticipants u)) (tok # map snd ps))"
  using assms
proof (induction ps arbitrary: tok ms resp sent)
  case Nil
  then have "participants_page_of (w (length sent)) = Some (page, cursor)"
    by simp
  from get_meeting_participants_loop_stop [where w = w and sent = sent, OF this Nil(3)] show ?case
    by simp
next
  case (Cons p ps)
  obtain pg c where p: "p = (pg, c)"
    by (cases p)
  from Cons.prems(1) have "participants_page_of (w (length sent + 0)) = Some ((p # ps) ! 0)
      \<and> truthy (snd ((p # ps) ! 0))"
    by blast
  with p have first: "participants_page_of (w (length sent)) = Some (pg, c)" "truthy c"
    by simp_all
  let ?sent = "sent @ [Request (MeetingParticipants u) tok]"
  from get_meeting_participants_loop_step [where w = w and sent = sent, OF first] obtain r where
    step: "get_meeting_participants_loop w u tok ms resp sent =
      get_meeting_participants_loop w u c (ms @ pg) (Some r) ?sent"
    by blast
  have rest: "\<forall>i<length ps. participants_page_of (w (length ?sent + i)) = Some (ps ! i)
      \<and> truthy (snd (ps ! i))"
  proof (intro allI impI)
    fix i assume "i < length ps"
    then have "Suc i < length (p # ps)"
      by simp
    with Cons.prems(1) have "participants_page_of (w (length sent + Suc i)) = Some ((p # ps) ! Suc i)
        \<and> truthy (snd ((p # ps) ! Suc i))"
      by blast
    then show "participants_page_of (w (length ?sent + i)) = Some (ps ! i) \<and> truthy (snd (ps ! i))"
      by simp
  qed
  have last: "participants_page_of (w (length ?sent + length ps)) = Some (page, cursor)"
    using Cons.prems(2) by simp
  from Cons.IH [OF rest last Cons.prems(3)] step p show ?case
    by simp
qed
section \<open>Pages are fetched in order\<close>

text \<open>
  C4. When the provider answers the requests of a listing with the pages \<open>P1\<close> (cursor
  \<open>c1\<close>), \<open>P2\<close> (cursor \<open>c2\<close>) and \<open>P3\<close> (cursor absent or empty), both
  \<^verbatim>\<open>get_meetings\<close> and \<^verbatim>\<open>get_meeting_participants\<close> return \<open>P1 @ P2 @ P3\<close> and send
  exactly three requests, carrying no cursor, \<open>c1\<close> and \<open>c2\<close>. In general, for any
  number of pages with a cursor followed by a page whose cursor is absent or empty, the
  result is the concatenation of the pages up to and including that page, in the order
  met, and the requests carry no cursor first and then the cursor of each page in turn;
  nothing is requested after that page.
\<close>

theorem pagination_order:
  "(c1 \<noteq> [] \<and> c2 \<noteq> [] \<and> \<not> truthy c3
      \<and> meetings_page_of (w (length sent)) = Some (M1, Some c1)
      \<and> meetings_page_of (w (length sent + 1)) = Some (M2, Some c2)
      \<and> meetings_page_of (w (length sent + 2)) = Some (M3, c3)
    \<longrightarrow> get_meetings w user_id sent =
          Some (Inr (M1 @ M2 @ M3),
                sent @ [Request (UserMeetings user_id) None,
                        Request (UserMeetings user_id) (Some c1),
                        Request (UserMeetings user_id) (Some c2)]))
   \<and> (c1 \<noteq> [] \<and> c2 \<noteq> [] \<and> \<not> truthy c3
      \<and> participants_page_of (w (length sent)) = Some (P1, Some c1)
      \<and> participants_page_of (w (length sent + 1)) = Some (P2, Some c2)
      \<and> participants_page_of (w (length sent + 2)) = Some (P3, c3)
    \<longrightarrow> get_meeting_participants w meeting_id sent =
          Some (Inr (P1 @ P2 @ P3),
                sent @ [Request (MeetingParticipants meeting_id) None,
                        Request (MeetingParticipants meeting_id) (Some c1),
                        Request (MeetingParticipants meeting_id) (Some c2)]))
   \<and> ((\<forall>i<length mpages. meetings_page_of (w (length sent + i)) = Some (mpages ! i)
           \<and> truthy (snd (mpages ! i)))
      \<and> meetings_page_of (w (length sent + length mpages)) = Some (mlast, mcursor)
      \<and> \<not> truthy mcursor
    \<longrightarrow> get_meetings w user_id sent =
          Some (Inr (concat (map fst mpages) @ mlast),
                sent @ map (Request (UserMeetings user_id)) (None # map snd mpages)))
   \<and> ((\<forall>i<length ppages. participants_page_of (w (length sent + i)) = Some (ppages ! i)
           \<and> truthy (snd (ppages ! i)))
      \<and> participants_page_of (w (length sent + length ppages)) = Some (plast, pcursor)
      \<and> \<not> truthy pcursor
    \<longrightarrow> get_meeting_participants w meeting_id sent =
          Some (Inr (concat (map fst ppages) @ plast),
                sent @ map (Request (MeetingParticipants meeting_id)) (None # map snd ppages)))"
proof (intro conjI impI)
  assume a: "c1 \<noteq> [] \<and> c2 \<noteq> [] \<and> \<not> truthy c3
      \<and> meetings_page_of (w (length sent)) = Some (M1, Some c1)
      \<and> meetings_page_of (w (length sent + 1)) = Some (M2, Some c2)
      \<and> meetings_page_of (w (length sent + 2)) = Some (M3, c3)"
  let ?ps = "[(M1, Some c1), (M2, Some c2)]"
  have "\<forall>i<length ?ps. meetings_page_of (w (length sent + i)) = Some (?ps ! i)
      \<and> truthy (snd (?ps ! i))"
    using a by (auto simp: less_Suc_eq truthy_def)
  moreover have "meetings_page_of (w (length sent + length ?ps)) = Some (M3, c3)"
    using a by simp
  moreover have "\<not> truthy c3"
    using a by simp
  ultimately have "get_meetings_loop w user_id None [] None sent =
      Some (Inr ([] @ concat (map fst ?ps) @ M3),
            sent @ map (Request (UserMeetings user_id)) (None # map snd ?ps))"
    by (rule get_meetings_loop_pages)
  then show "get_meetings w user_id sent =
          Some (Inr (M1 @ M2 @ M3),
                sent @ [Request (UserMeetings user_id) None,
                        Request (UserMeetings user_id) (Some c1),
                        Request (UserMeetings user_id) (Some c2)])"
    by (simp add: get_meetings_def)
next
  assume a: "c1 \<noteq> [] \<and> c2 \<noteq> [] \<and> \<not> truthy c3
      \<and> participants_page_of (w (length sent)) = Some (P1, Some c1)
      \<and> participants_page_of (w (length sent + 1)) = Some (P2, Some c2)
      \<and> participants_page_of (w (length sent + 2)) = Some (P3, c3)"
  let ?ps = "[(P1, Some c1), (P2, Some c2)]"
  have "\<forall>i<length ?ps. participants_page_of (w (length sent + i)) = Some (?ps ! i)
      \<and> truthy (snd (?ps ! i))"
    using a by (auto simp: less_Suc_eq truthy_def)
  moreover have "participants_page_of (w (length sent + length ?ps)) = Some (P3, c3)"
    using a by simp
  moreover have "\<not> truthy c3"
    using a by simp
  ultimately have "get_meeting_participants_loop w meeting_id None [] None sent =
      Some (Inr ([] @ concat (map fst ?ps) @ P3),
            sent @ map (Request (MeetingParticipants meeting_id)) (None # map snd ?ps))"
    by (rule get_meeting_participants_loop_pages)
  then show "get_meeting_participants w meeting_id sent =
          Some (Inr (P1 @ P2 @ P3),
                sent @ [Request (MeetingParticipants meeting_id) None,
                        Request (MeetingParticipants meeting_id) (Some c1),
                        Request (MeetingParticipants meeting_id) (Some c2)])"
    by (simp add: get_meeting_participants_def)
next
  assume a: "(\<forall>i<length mpages. meetings_page_of (w (length sent + i)) = Some (mpages ! i)
           \<and> truthy (snd (mpages ! i)))
      \<and> meetings_page_of (w (length sent + length mpages)) = Some (mlast, mcursor)
      \<and> \<not> truthy mcursor"
  then have "get_meetings_loop w user_id None [] None sent =
      Some (Inr ([] @ concat (map fst mpages) @ mlast),
            sent @ map (Request (UserMeetings user_id)) (None # map snd mpages))"
    by (intro get_meetings_loop_pages) blast+
  then show "get_meetings w user_id sent =
          Some (Inr (concat (map fst mpages) @ mlast),
                sent @ map (Request (UserMeetings user_id)) (None # map snd mpages))"
    by (simp add: get_meetings_def)
next
  assume a: "(\<forall>i<length ppages. participants_page_of (w (length sent + i)) = Some (ppages ! i)
           \<and> truthy (snd (ppages ! i)))
      \<and> participants_page_of (w (length sent + length ppages)) = Some (plast, pcursor)
      \<and> \<not> truthy pcursor"
  then have "get_meeting_participants_loop w meeting_id None [] None sent =
      Some (Inr ([] @ concat (map fst ppages) @ plast),
            sent @ map (Request (MeetingParticipants meeting_id)) (None # map snd ppages))"
    by (intro get_meeting_participants_loop_pages) blast+
  then show "get_meeting_participants w meeting_id sent =
          Some (Inr (concat (map fst ppages) @ plast),
                sent @ map (Request (MeetingParticipants meeting_id)) (None # map snd ppages))"
    by (simp add: get_meeting_participants_def)
qed

text \<open>
  The theorem at three pages of meetings, the middle one empty and the last one with an
  empty cursor; a fourth page is there and is not requested.
\<close>

theorem pagination_order_witness:
  "get_meetings
     (script [meetings_page [standup] (Some ''c1''), meetings_page [] (Some ''c2''),
              meetings_page [review] (Some ''''), meetings_page [standup] None])
     ''me'' [] =
   Some (Inr [standup, review],
         [Request (UserMeetings ''me'') None, Request (UserMeetings ''me'') (Some ''c1''),
          Request (UserMeetings ''me'') (Some ''c2'')])"
proof -
  let ?w = "script [meetings_page [standup] (Some ''c1''), meetings_page [] (Some ''c2''),
              meetings_page [review] (Some ''''), meetings_page [standup] None]"
  have h: "''c1'' \<noteq> [] \<and> ''c2'' \<noteq> [] \<and> \<not> truthy (Some '''')
      \<and> meetings_page_of (?w (length ([]::request list))) = Some ([standup], Some ''c1'')
      \<and> meetings_page_of (?w (length ([]::request list) + 1)) = Some ([], Some ''c2'')
      \<and> meetings_page_of (?w (length ([]::request list) + 2)) = Some ([review], Some '''')"
    by (simp add: truthy_def script_def meetings_page_def meetings_page_of_def
        raise_for_status_def no_keys_def)
  from pagination_order [where w = ?w and sent = "[]" and ?c1.0 = "''c1''" and ?c2.0 = "''c2''"
      and ?c3.0 = "Some ''''" and ?M1.0 = "[standup]" and ?M2.0 = "[]" and ?M3.0 = "[review]"
      and user_id = "''me''"] h
  have "get_meetings ?w ''me'' [] =
          Some (Inr ([standup] @ [] @ [review]),
                [] @ [Request (UserMeetings ''me'') None,
                      Request (UserMeetings ''me'') (Some ''c1''),
                      Request (UserMeetings ''me'') (Some ''c2'')])"
    by blast
  then show ?thesis
    by simp
qed
section \<open>The loops end at the first page without a cursor\<close>

lemma get_meetings_returns_iff:
  "get_meetings w user_id sent \<noteq> None \<longleftrightarrow> (\<exists>n\<ge>length sent. \<not> meetings_continue (w n))"
proof
  assume "get_meetings w user_id sent \<noteq> None"
  then obtain r where "get_meetings_loop w user_id None [] None sent = Some r"
    by (auto simp: get_meetings_def)
  then show "\<exists>n\<ge>length sent. \<not> meetings_continue (w n)"
    by (rule get_meetings_loop_stops)
next
  assume "\<exists>n\<ge>length sent. \<not> meetings_continue (w n)"
  then obtain n where "length sent \<le> n" "\<not> meetings_continue (w n)"
    by blast
  then have "\<not> meetings_continue (w (length sent + (n - length sent)))"
    by simp
  then have "get_meetings_loop w user_id None [] None sent \<noteq> None"
    by (rule get_meetings_loop_returns)
  then show "get_meetings w user_id sent \<noteq> None"
    by (simp add: get_meetings_def)
qed

lemma get_meeting_participants_returns_iff:
  "get_meeting_participants w meeting_id sent \<noteq> None \<longleftrightarrow>
     (\<exists>n\<ge>length sent. \<not> participants_continue (w n))"
proof
  assume "get_meeting_participants w meeting_id sent \<noteq> None"
  then obtain r where "get_meeting_participants_loop w meeting_id None [] None sent = Some r"
    by (auto simp: get_meeting_participants_def)
  then show "\<exists>n\<ge>length sent. \<not> participants_continue (w n)"
    by (rule get_meeting_participants_loop_stops)
next
  assume "\<exists>n\<ge>length sent. \<not> participants_continue (w n)"
  then obtain n where "length sent \<le> n" "\<not> participants_continue (w n)"
    by blast
  then have "\<not> participants_continue (w (length sent + (n - length sent)))"
    by simp
  then have "get_meeting_participants_loop w meeting_id None [] None sent \<noteq> None"
    by (rule get_meeting_participants_loop_returns)
  then show "get_meeting_participants w meeting_id sent \<noteq> None"
    by (simp add: get_meeting_participants_def)
qed

text \<open>
  C9. When every response is a page (a success status with the items key), each of the
  two loops returns if and only if some page from the first request on has an absent or
  empty \<^verbatim>\<open>next_page_token\<close>. Against a provider whose every page has a non-empty token
  the loop never returns. There is no bound on the requests: for every \<open>N\<close> some
  provider makes the loop send more than \<open>N\<close> requests before it returns.
\<close>

theorem pagination_terminates_iff:
  "((\<forall>n. meetings_page_of (w n) \<noteq> None) \<longrightarrow>
      (get_meetings w user_id sent \<noteq> None \<longleftrightarrow>
         (\<exists>n\<ge>length sent. \<exists>page cursor.
            meetings_page_of (w n) = Some (page, cursor) \<and> (cursor = None \<or> cursor = Some []))))
   \<and> ((\<forall>n. participants_page_of (w n) \<noteq> None) \<longrightarrow>
      (get_meeting_participants w meeting_id sent \<noteq> None \<longleftrightarrow>
         (\<exists>n\<ge>length sent. \<exists>page cursor.
            participants_page_of (w n) = Some (page, cursor)
              \<and> (cursor = None \<or> cursor = Some []))))
   \<and> ((\<forall>n. \<exists>page token. meetings_page_of (w n) = Some (page, Some token) \<and> token \<noteq> []) \<longrightarrow>
        get_meetings w user_id sent = None)
   \<and> ((\<forall>n. \<exists>page token. participants_page_of (w n) = Some (page, Some token) \<and> token \<noteq> [])
        \<longrightarrow> get_meeting_participants w meeting_id sent = None)
   \<and> (\<exists>w' r sent'. get_meetings w' user_id [] = Some (r, sent') \<and> N < length sent')
   \<and> (\<exists>w' r sent'. get_meeting_participants w' meeting_id [] = Some (r, sent')
         \<and> N < length sent')"
proof (intro conjI impI)
  assume pages: "\<forall>n. meetings_page_of (w n) \<noteq> None"
  have "\<not> meetings_continue (w n) \<longleftrightarrow>
      (\<exists>page cursor. meetings_page_of (w n) = Some (page, cursor)
         \<and> (cursor = None \<or> cursor = Some []))" for n
  proof (cases "meetings_page_of (w n)")
    case None
    with pages show ?thesis
      by blast
  next
    case (Some pc)
    obtain page cursor where "pc = (page, cursor)"
      by (cases pc)
    with Some show ?thesis
      by (simp add: meetings_continue_def not_truthy_iff)
  qed
  then show "get_meetings w user_id sent \<noteq> None \<longleftrightarrow>
         (\<exists>n\<ge>length sent. \<exists>page cursor.
            meetings_page_of (w n) = Some (page, cursor) \<and> (cursor = None \<or> cursor = Some []))"
    by (simp only: get_meetings_returns_iff)
next
  assume pages: "\<forall>n. participants_page_of (w n) \<noteq> None"
  have "\<not> participants_continue (w n) \<longleftrightarrow>
      (\<exists>page cursor. participants_page_of (w n) = Some (page, cursor)
         \<and> (cursor = None \<or> cursor = Some []))" for n
  proof (cases "participants_page_of (w n)")
    case None
    with pages show ?thesis
      by blast
  next
    case (Some pc)
    obtain page cursor where "pc = (page, cursor)"
      by (cases pc)
    with Some show ?thesis
      by (simp add: participants_continue_def not_truthy_iff)
  qed
  then show "get_meeting_participants w meeting_id sent \<noteq> None \<longleftrightarrow>
         (\<exists>n\<ge>length sent. \<exists>page cursor.
            participants_page_of (w n) = Some (page, cursor)
              \<and> (cursor = None \<or> cursor = Some []))"
    by (simp only: get_meeting_participants_returns_iff)
next
  assume "\<forall>n. \<exists>page token. meetings_page_of (w n) = Some (page, Some token) \<and> token \<noteq> []"
  then have "meetings_continue (w n)" for n
    by (auto simp: meetings_continue_def truthy_def dest!: spec [of _ n])
  then show "get_meetings w user_id sent = None"
    using get_meetings_returns_iff [of w user_id sent] by blast
next
  assume "\<forall>n. \<exists>page token. participants_page_of (w n) = Some (page, Some token) \<and> token \<noteq> []"
  then have "participants_continue (w n)" for n
    by (auto simp: participants_continue_def truthy_def dest!: spec [of _ n])
  then show "get_meeting_participants w meeting_id sent = None"
    using get_meeting_participants_returns_iff [of w meeting_id sent] by blast
next
  let ?w = "\<lambda>n. if n < N then meetings_page [] (Some ''c'') else meetings_page [] None"
  let ?ps = "replicate N ([]::meeting list, Some ''c'')"
  have "\<forall>i<length ?ps. meetings_page_of (?w (length ([]::request list) + i)) = Some (?ps ! i)
      \<and> truthy (snd (?ps ! i))"
    by (simp add: meetings_page_of_def meetings_page_def raise_for_status_def truthy_def
        no_keys_def)
  moreover have "meetings_page_of (?w (length ([]::request list) + length ?ps)) = Some ([], None)"
    by (simp add: meetings_page_of_def meetings_page_def raise_for_status_def no_keys_def)
  moreover have "\<not> truthy None"
    by (simp add: truthy_def)
  ultimately have "get_meetings_loop ?w user_id None [] None [] =
      Some (Inr ([] @ concat (map fst ?ps) @ []),
            [] @ map (Request (UserMeetings user_id)) (None # map snd ?ps))"
    by (rule get_meetings_loop_pages)
  then have "get_meetings ?w user_id [] =
      Some (Inr ([] @ concat (map fst ?ps) @ []),
            [] @ map (Request (UserMeetings user_id)) (None # map snd ?ps))
      \<and> N < length ([] @ map (Request (UserMeetings user_id)) (None # map snd ?ps))"
    by (simp add: get_meetings_def)
  then show "\<exists>w' r sent'. get_meetings w' user_id [] = Some (r, sent') \<and> N < length sent'"
    by blast
next
  let ?w = "\<lambda>n. if n < N then participants_page [] (Some ''c'') else participants_page [] None"
  let ?ps = "replicate N ([]::participant list, Some ''c'')"
  have "\<forall>i<length ?ps. participants_page_of (?w (length ([]::request list) + i)) = Some (?ps ! i)
      \<and> truthy (snd (?ps ! i))"
    by (simp add: participants_page_of_def participants_page_def raise_for_status_def truthy_def
        no_keys_def)
  moreover have "participants_page_of (?w (length ([]::request list) + length ?ps)) =
      Some ([], None)"
    by (simp add: participants_page_of_def participants_page_def raise_for_status_def no_keys_def)
  moreover have "\<not> truthy None"
    by (simp add: truthy_def)
  ultimately have "get_meeting_participants_loop ?w meeting_id None [] None [] =
      Some (Inr ([] @ concat (map fst ?ps) @ []),
            [] @ map (Request (MeetingParticipants meeting_id)) (None # map snd ?ps))"
    by (rule get_meeting_participants_loop_pages)
  then have "get_meeting_participants ?w meeting_id [] =
      Some (Inr ([] @ concat (map fst ?ps) @ []),
            [] @ map (Request (MeetingParticipants meeting_id)) (None # map snd ?ps))
      \<and> N < length ([] @ map (Request (MeetingParticipants meeting_id)) (None # map snd ?ps))"
    by (simp add: get_meeting_participants_def)
  then show "\<exists>w' r sent'. get_meeting_participants w' meeting_id [] = Some (r, sent')
      \<and> N < length sent'"
    by blast
qed

text \<open>
  The theorem at a provider whose every page of meetings carries the cursor \<open>c\<close>: the
  loop does not return.
\<close>

theorem pagination_terminates_iff_witness:
  "(\<forall>n. \<exists>page token. meetings_page_of (meetings_page [standup] (Some ''c'')) =
       Some (page, Some token) \<and> token \<noteq> [])
   \<and> get_meetings (\<lambda>n. meetings_page [standup] (Some ''c'')) ''me'' [] = None"
proof -
  have h: "\<forall>n::nat. \<exists>page token. meetings_page_of (meetings_page [standup] (Some ''c'')) =
       Some (page, Some token) \<and> token \<noteq> []"
    by (simp add: meetings_page_of_def meetings_page_def raise_for_status_def no_keys_def)
  from pagination_terminates_iff
    [where w = "\<lambda>n. meetings_page [standup] (Some ''c'')" and user_id = "''me''" and sent = "[]"]
    h
  show ?thesis
    by blast
qed

section \<open>The summary of a participant\<close>

lemma participant_summaries_iff:
  "participant_summaries parse ps acc = Inr out \<longleftrightarrow>
     (\<exists>new. out = acc @ new \<and> list_all2 (\<lambda>p s. summarize_participant parse p = Inr s) ps new)"
proof (induction ps arbitrary: acc)
  case Nil
  then show ?case
    by auto
next
  case (Cons p ps)
  show ?case
  proof (cases "summarize_participant parse p")
    case (Inl e)
    then show ?thesis
      by (auto simp: list_all2_Cons1)
  next
    case (Inr s)
    then show ?thesis
      by (auto simp: Cons.IH list_all2_Cons1)
  qed
qed

lemma summarize_participant_name:
  "summarize_participant parse p = Inr s \<Longrightarrow> ps_name s = p_name p"
  by (auto simp: summarize_participant_def split: sum.splits)

lemma summarize_participant_no_email:
  "p_email p = None \<Longrightarrow> summarize_participant parse p = Inr s \<Longrightarrow> ps_email s = ''N/A''"
  by (auto simp: summarize_participant_def split: sum.splits)

text \<open>
  C10. For a participant record with no email field, the summary holds the string
  \<open>N/A\<close> as its email; its name is the participant's name and its duration is the
  computed duration followed by \<open>minutes\<close>. The summary of the same record with any email
  differs in the email only, and so does the error when a timestamp does not parse. In
  the list of summaries of a meeting, the entry at the position of such a participant has
  the email \<open>N/A\<close> and the participant's name.
\<close>

theorem missing_email_is_NA:
  assumes "p_email p = None"
  shows "(calculate_participant_duration parse (p_join_time p) (p_leave_time p) = Inr d \<longrightarrow>
            summarize_participant parse p =
              Inr \<lparr>ps_name = p_name p, ps_email = ''N/A'',
                   ps_duration = str_int d @ '' minutes''\<rparr>)
         \<and> summarize_participant parse p =
             map_sum id (\<lambda>s. s\<lparr>ps_email := ''N/A''\<rparr>)
               (summarize_participant parse (p\<lparr>p_email := Some e\<rparr>))
         \<and> (participant_summaries parse ps [] = Inr out \<and> i < length ps \<and> ps ! i = p \<longrightarrow>
              i < length out \<and> ps_email (out ! i) = ''N/A'' \<and> ps_name (out ! i) = p_name p)"
proof (intro conjI)
  show "calculate_participant_duration parse (p_join_time p) (p_leave_time p) = Inr d \<longrightarrow>
      summarize_participant parse p =
        Inr \<lparr>ps_name = p_name p, ps_email = ''N/A'', ps_duration = str_int d @ '' minutes''\<rparr>"
    using assms by (simp add: summarize_participant_def)
  show "summarize_participant parse p =
      map_sum id (\<lambda>s. s\<lparr>ps_email := ''N/A''\<rparr>)
        (summarize_participant parse (p\<lparr>p_email := Some e\<rparr>))"
    using assms by (simp add: summarize_participant_def split: sum.splits)
  show "participant_summaries parse ps [] = Inr out \<and> i < length ps \<and> ps ! i = p \<longrightarrow>
      i < length out \<and> ps_email (out ! i) = ''N/A'' \<and> ps_name (out ! i) = p_name p"
  proof
    assume a: "participant_summaries parse ps [] = Inr out \<and> i < length ps \<and> ps ! i = p"
    then have all2: "list_all2 (\<lambda>p s. summarize_participant parse p = Inr s) ps out"
      by (simp add: participant_summaries_iff)
    with a have len: "i < length out"
      by (simp add: list_all2_lengthD)
    from all2 a have s: "summarize_participant parse p = Inr (out ! i)"
      by (auto dest: list_all2_nthD)
    with assms have "ps_email (out ! i) = ''N/A''"
      by (rule summarize_participant_no_email)
    with len s show "i < length out \<and> ps_email (out ! i) = ''N/A'' \<and> ps_name (out ! i) = p_name p"
      by (simp add: summarize_participant_name)
  qed
qed

text \<open>The theorem at a participant with no email, second of two.\<close>

theorem missing_email_is_NA_witness:
  "p_email bob = None
   \<and> participant_summaries parse_iso_utc [alice, bob] [] =
       Inr [\<lparr>ps_name = ''Alice'', ps_email = ''alice@example.com'',
             ps_duration = ''45 minutes''\<rparr>,
            \<lparr>ps_name = ''Bob'', ps_email = ''N/A'', ps_duration = ''30 minutes''\<rparr>]
   \<and> ps_email
       ([\<lparr>ps_name = ''Alice'', ps_email = ''alice@example.com'',
           ps_duration = ''45 minutes''\<rparr>,
         \<lparr>ps_name = ''Bob'', ps_email = ''N/A'', ps_duration = ''30 minutes''\<rparr>] ! 1) = ''N/A''"
proof -
  have h: "p_email bob = None"
    by (simp add: bob_def)
  have run: "participant_summaries parse_iso_utc [alice, bob] [] =
       Inr [\<lparr>ps_name = ''Alice'', ps_email = ''alice@example.com'',
             ps_duration = ''45 minutes''\<rparr>,
            \<lparr>ps_name = ''Bob'', ps_email = ''N/A'', ps_duration = ''30 minutes''\<rparr>]"
    by code_simp
  from missing_email_is_NA [OF h, of parse_iso_utc _ _ "[alice, bob]" _ 1] run h
  show ?thesis
    by simp
qed
section \<open>One summary per meeting, in order\<close>








section \<open>Failures of the listings\<close>

lemma get_meeting_participants_status_caught:
  assumes "w (length sent) = Reply status data" "raise_for_status status"
  shows "get_meeting_participants w meeting_id sent =
           Some (Inr [], sent @ [Request (MeetingParticipants meeting_id) None])"
  using assms unfolding get_meeting_participants_def
  by (subst get_meeting_participants_loop.simps)
     (simp add: requests_get_def get_meeting_participants_except_def)

lemma get_meeting_participants_first_raises:
  assumes "w (length sent) = Raises"
  shows "get_meeting_participants w meeting_id sent =
           Some (Inl UnboundLocalError, sent @ [Request (MeetingParticipants meeting_id) None])"
  using assms unfolding get_meeting_participants_def
  by (subst get_meeting_participants_loop.simps)
     (simp add: requests_get_def get_meeting_participants_except_def)

text \<open>
  C2, the code at the failing input: the provider cannot be reached for the first request
  of the participant listing of the first of two meetings. \<^verbatim>\<open>requests.get\<close> raises
  before \<open>response\<close> is bound, the handler of \<^verbatim>\<open>get_meeting_participants\<close> reads
  \<open>response\<close> and raises \<^verbatim>\<open>UnboundLocalError\<close>, and the run ends with no summary at all,
  although the listing of the second meeting would have succeeded. For comparison, a
  status 500 on the same request is caught: the first meeting gets an empty participant
  list and both summaries are produced; and a status 500 on the second page of the
  meeting listing is fatal, with the meetings of the first page dropped.
\<close>

theorem participants_failure_escapes:
  "get_meeting_participants (script [Raises]) ''81'' [] =
     Some (Inl UnboundLocalError, [Request (MeetingParticipants ''81'') None])
   \<and> summarize_meetings parse_iso_utc strftime_minutes
       (script [Raises, participants_page [bob] None]) [standup, review] [] =
     Some (Inl UnboundLocalError, [Request (MeetingParticipants ''81'') None])
   \<and> main parse_iso_utc strftime_minutes
       (script [token_reply ''tok'' 3600, user_reply ''me'',
                meetings_page [standup, review] None, Raises, participants_page [bob] None])
       0 0 (NoFile, []) =
     Some (Inl UnboundLocalError,
           JsonObject \<lparr>c_access_token = Some ''tok'', c_expiration = Some (Iso 3600000000)\<rparr>,
           [Request OAuthToken None, Request UsersMe None, Request (UserMeetings ''me'') None,
            Request (MeetingParticipants ''81'') None])
   \<and> summarize_meetings parse_iso_utc strftime_minutes
       (script [Reply 500 no_keys, participants_page [bob] None]) [standup, review] [] =
     Some (Inr [\<lparr>ms_topic = ''Standup'', ms_start_time = ''2024-01-01 10:00'',
                  ms_end_time = ''2024-01-01 10:30'', ms_scheduled_duration = ''30 minutes'',
                  ms_participants = []\<rparr>,
                \<lparr>ms_topic = ''Review'', ms_start_time = ''2024-01-02 15:30'',
                  ms_end_time = ''2024-01-02 16:30'', ms_scheduled_duration = ''60 minutes'',
                  ms_participants =
                    [\<lparr>ps_name = ''Bob'', ps_email = ''N/A'',
                       ps_duration = ''30 minutes''\<rparr>]\<rparr>],
           [Request (MeetingParticipants ''81'') None,
            Request (MeetingParticipants ''82'') None])
   \<and> get_meetings (script [meetings_page [standup] (Some ''c1''), Reply 500 no_keys]) ''me'' [] =
     Some (Inl Failed_to_fetch_meetings,
           [Request (UserMeetings ''me'') None, Request (UserMeetings ''me'') (Some ''c1'')])"
  by code_simp

text \<open>
  C7, the code at the failing input: the provider answers the meeting listing with 503,
  503 and then 200. \<^verbatim>\<open>get_meetings\<close> calls \<^verbatim>\<open>requests.get\<close>, not \<^verbatim>\<open>session.get\<close>: it
  sends one request and fails, and so does the participant listing (one request, an empty
  list). For comparison \<^verbatim>\<open>get_user_id\<close>, which goes through \<^verbatim>\<open>session\<close>, sends three
  requests and succeeds under the retry policy of the specification, and sends one on a
  404.
\<close>

theorem listings_are_not_retried:
  "get_meetings (script [Reply 503 no_keys, Reply 503 no_keys, meetings_page [standup] None])
     ''me'' [] =
     Some (Inl Failed_to_fetch_meetings, [Request (UserMeetings ''me'') None])
   \<and> get_meeting_participants
       (script [Reply 503 no_keys, Reply 503 no_keys, participants_page [alice] None])
       ''81'' [] =
     Some (Inr [], [Request (MeetingParticipants ''81'') None])
   \<and> get_user_id (script [Reply 503 no_keys, Reply 503 no_keys, user_reply ''me'']) [] =
     (Inr ''me'', [Request UsersMe None, Request UsersMe None, Request UsersMe None])
   \<and> get_user_id (script [Reply 404 no_keys]) [] =
     (Inl Failed_to_obtain_user_ID, [Request UsersMe None])"
  by code_simp

end
